theory Spec2Isabelle
  imports Main "HOL-Library.Word"
begin

unbundle bit_operations_syntax

section \<open>Machine types\<close>

text \<open>
  Go's \<open>byte\<close>, \<open>uint16\<close> and \<open>uint32\<close> are words of that width; Go's \<open>int\<close> is
  a 64-bit two's-complement word, read by \<open>sint\<close>.
\<close>

type_synonym byte = "8 word"
type_synonym uint16 = "16 word"
type_synonym uint32 = "32 word"
type_synonym go_int = "64 word"

section \<open>Constants of the controller\<close>

text \<open>The untyped constants \<open>width\<close> and \<open>height\<close> of the package.\<close>

definition width :: int where "width = 162"
definition height :: int where "height = 132"

definition softwareRst :: byte where "softwareRst = 0x01"
definition sleepOut :: byte where "sleepOut = 0x11"
definition partialOff :: byte where "partialOff = 0x13"
definition inverseOff :: byte where "inverseOff = 0x21"
definition displayOn :: byte where "displayOn = 0x29"
definition columnAddress :: byte where "columnAddress = 0x2A"
definition rowAddress :: byte where "rowAddress = 0x2B"
definition memoryWrite :: byte where "memoryWrite = 0x2C"
definition memoryDAC :: byte where "memoryDAC = 0x36"
definition pixelFormat :: byte where "pixelFormat = 0x3A"
definition frameControl1 :: byte where "frameControl1 = 0xB1"
definition frameControl2 :: byte where "frameControl2 = 0xB2"
definition frameControl3 :: byte where "frameControl3 = 0xB3"
definition invControl :: byte where "invControl = 0xB4"
definition powerControl1 :: byte where "powerControl1 = 0xC0"
definition powerControl2 :: byte where "powerControl2 = 0xC1"
definition powerControl3 :: byte where "powerControl3 = 0xC2"
definition powerControl4 :: byte where "powerControl4 = 0xC3"
definition powerControl5 :: byte where "powerControl5 = 0xC4"
definition vmControl1 :: byte where "vmControl1 = 0xC5"
definition gammaControlPositive :: byte where "gammaControlPositive = 0xE0"
definition gammaControlNegative :: byte where "gammaControlNegative = 0xE1"

section \<open>Panel geometry\<close>

text \<open>
  The interface \<open>Model\<close> has two implementations in the package, the empty structs
  \<open>ModelStandard\<close> and \<open>ModelMini\<close>. Each accessor returns a \<open>byte\<close>: a constant
  expression is evaluated exactly and then converted, an expression with a method call
  is evaluated in \<open>byte\<close> arithmetic. A nil \<open>Model\<close> is not modelled.
\<close>

datatype Model = ModelStandard | ModelMini

fun OffsetX :: "Model \<Rightarrow> byte" where
  "OffsetX ModelStandard = 0"
| "OffsetX ModelMini = word_of_int ((height - 80) div 2)"

fun OffsetXEnd :: "Model \<Rightarrow> byte" where
  "OffsetXEnd ModelStandard = word_of_int (width - 1)"
| "OffsetXEnd ModelMini = (80 + OffsetX ModelMini) - 1"

fun OffsetY :: "Model \<Rightarrow> byte" where
  "OffsetY ModelStandard = 0"
| "OffsetY ModelMini = word_of_int ((width - 160) div 2)"

fun OffsetYEnd :: "Model \<Rightarrow> byte" where
  "OffsetYEnd ModelStandard = word_of_int (height - 1)"
| "OffsetYEnd ModelMini = (160 + OffsetY ModelMini) - 1"

section \<open>Images and pixel conversion\<close>

text \<open>
  An \<open>image.Image\<close> is its bounds and its pixel query. \<open>At(x, y).RGBA()\<close> returns four
  \<open>uint32\<close> values (red, green, blue, alpha). The rectangle's fields are Go \<open>int\<close>s;
  \<open>Dx\<close> and \<open>Dy\<close> subtract them in that type.
\<close>

record Point =
  X :: go_int
  Y :: go_int

record Rectangle =
  Min_pt :: Point
  Max_pt :: Point

definition Dx :: "Rectangle \<Rightarrow> go_int" where
  "Dx r = X (Max_pt r) - X (Min_pt r)"

definition Dy :: "Rectangle \<Rightarrow> go_int" where
  "Dy r = Y (Max_pt r) - Y (Min_pt r)"

type_synonym RGBA = "uint32 \<times> uint32 \<times> uint32 \<times> uint32"

record Image =
  Bounds :: Rectangle
  At :: "int \<Rightarrow> int \<Rightarrow> RGBA"

text \<open>The two run-time panics the conversion and the chunking can raise.\<close>

datatype panic = MakeSliceLenOutOfRange | SliceBoundsOutOfRange

text \<open>
  The packed value of one pixel:
  \<^verbatim>\<open>uint16((r<<8)&0b1111100000000000|(g<<3)&0b0000011111100000|(b>>3)&0b0000000000011111)\<close>
  computed on \<open>uint32\<close> and then truncated. In Go \<open>&\<close> binds tighter than \<open>|\<close>.
\<close>

definition pack565 :: "uint32 \<Rightarrow> uint32 \<Rightarrow> uint32 \<Rightarrow> uint16" where
  "pack565 r g b =
     ucast ((push_bit 8 r AND 0xF800) OR (push_bit 3 g AND 0x07E0) OR (drop_bit 3 b AND 0x001F))"

definition pixel565 :: "Image \<Rightarrow> nat \<Rightarrow> nat \<Rightarrow> uint16" where
  "pixel565 img x y = (case At img (int x) (int y) of (r, g, b, a) \<Rightarrow> pack565 r g b)"

text \<open>
  \<open>binary.BigEndian.PutUint16(rgb565[i:i+2], v)\<close> stores \<open>byte(v >> 8)\<close> and then
  \<open>byte(v)\<close> through the sub-slice, that is at \<open>i\<close> and \<open>i + 1\<close> of the buffer.
\<close>

definition hi_byte :: "uint16 \<Rightarrow> byte" where
  "hi_byte v = ucast (drop_bit 8 v)"

definition lo_byte :: "uint16 \<Rightarrow> byte" where
  "lo_byte v = ucast v"

definition PutUint16 :: "byte list \<Rightarrow> nat \<Rightarrow> uint16 \<Rightarrow> byte list" where
  "PutUint16 buf i v = buf[i := hi_byte v, i + 1 := lo_byte v]"

text \<open>
  The inner loop \<open>for y := 0; y < b.Max.Y; y++\<close> with the state it changes: the buffer
  and the write index \<open>i\<close>. The counters start at 0 and only grow, so they are
  naturals; \<open>y\<close> stays below \<open>b.Max.Y\<close> and \<open>i\<close> stays at most the buffer length, so
  neither increment can wrap. The slice expression \<open>rgb565[i:i+2]\<close> panics unless
  \<open>i + 2\<close> is at most the length of the buffer.
\<close>

function loop_y :: "Image \<Rightarrow> nat \<Rightarrow> nat \<Rightarrow> byte list \<times> nat \<Rightarrow> panic + byte list \<times> nat" where
  "loop_y img x y (rgb565, i) =
     (if int y < sint (Y (Max_pt (Bounds img))) then
        (let v = pixel565 img x y in
         if i + 2 \<le> length rgb565
         then loop_y img x (y + 1) (PutUint16 rgb565 i v, i + 2)
         else Inl SliceBoundsOutOfRange)
      else Inr (rgb565, i))"
  by pat_completeness auto
termination
  by (relation "measure (\<lambda>(img, x, y, s). nat (sint (Y (Max_pt (Bounds img))) - int y))") auto

text \<open>The outer loop \<open>for x := 0; x < b.Max.X; x++\<close>.\<close>

function loop_x :: "Image \<Rightarrow> nat \<Rightarrow> byte list \<times> nat \<Rightarrow> panic + byte list \<times> nat" where
  "loop_x img x s =
     (if int x < sint (X (Max_pt (Bounds img))) then
        (case loop_y img x 0 s of
           Inl p \<Rightarrow> Inl p
         | Inr s' \<Rightarrow> loop_x img (x + 1) s')
      else Inr s)"
  by pat_completeness auto
termination
  by (relation "measure (\<lambda>(img, x, s). nat (sint (X (Max_pt (Bounds img))) - int x))") auto

text \<open>
  \<open>toRGB565\<close>: \<open>make([]byte, b.Dx()*b.Dy()*2)\<close> panics on a negative length and
  otherwise gives a zeroed buffer; the product is computed in \<open>int\<close> and wraps.
  Memory exhaustion is not modelled.
\<close>

definition toRGB565 :: "Image \<Rightarrow> panic + byte list" where
  "toRGB565 img =
     (let b = Bounds img;
          n = sint (Dx b * Dy b * 2)
      in if n < 0 then Inl MakeSliceLenOutOfRange
         else (case loop_x img 0 (replicate (nat n) 0, 0) of
                 Inl p \<Rightarrow> Inl p
               | Inr (rgb565, i) \<Rightarrow> Inr rgb565))"

section \<open>Bus, pins and the trace of calls\<close>

text \<open>
  The driver talks to three collaborators: the SPI port and its connection, the
  data/command pin \<open>dc\<close> and the reset pin \<open>rst\<close>; it also sleeps. Every such call
  is an event. The trace lists the calls issued so far, oldest first. What a call
  returns is up to the collaborator: an oracle maps the history and the call to
  \<open>None\<close> (a nil error) or to an error.
\<close>

datatype Level = Low | High

type_synonym Duration = int

definition Millisecond :: Duration where "Millisecond = 1000000"

text \<open>\<open>Connect f mode bits\<close>: the frequency \<open>f\<close> in kHz.\<close>

datatype Event =
    Connect int nat nat
  | RstOut Level
  | DcOut Level
  | Tx "byte list"
  | Sleep Duration

datatype error = Error string

type_synonym Oracle = "Event list \<Rightarrow> Event \<Rightarrow> error option"

definition call :: "Oracle \<Rightarrow> Event \<Rightarrow> Event list \<Rightarrow> error option \<times> Event list" where
  "call env ev tr = (env tr ev, tr @ [ev])"

text \<open>
  A function of the driver returns its value together with the trace, or panics.
  A function whose loop may run forever yields an \<open>option\<close> of that: \<open>None\<close> is
  the run that never returns.
\<close>

datatype 'a outcome = Returns 'a "Event list" | Panics panic

record Command =
  Command :: byte
  Data :: "byte list option"
  Delay :: Duration

text \<open>
  Of the handle \<open>Dev\<close> the connection and the pins are the oracle; \<open>cs\<close> is never used.
\<close>

record Dev =
  maxTxSize :: go_int
  Model :: Model

section \<open>Sending commands and data\<close>

definition sendCommand :: "Oracle \<Rightarrow> byte list \<Rightarrow> Event list \<Rightarrow> error option \<times> Event list" where
  "sendCommand env c tr =
     (case call env (DcOut Low) tr of
        (Some err, tr1) \<Rightarrow> (Some err, tr1)
      | (None, tr1) \<Rightarrow> call env (Tx c) tr1)"

text \<open>
  The loop of \<open>sendData\<close>, \<open>for len(data) != 0\<close>. The slice expression
  \<open>data[:d.maxTxSize]\<close> panics on a negative bound; the upper bound holds in that
  branch. The result of \<open>d.c.Tx(chunk, nil)\<close> is dropped.
\<close>

partial_function (option) tx_chunks ::
  "Oracle \<Rightarrow> Dev \<Rightarrow> byte list \<Rightarrow> Event list \<Rightarrow> unit outcome option" where
  "tx_chunks env d data tr =
     (if data \<noteq> [] then
        (if int (length data) > sint (maxTxSize d) then
           (if sint (maxTxSize d) < 0 then Some (Panics SliceBoundsOutOfRange)
            else tx_chunks env d (drop (nat (sint (maxTxSize d))) data)
                   (snd (call env (Tx (take (nat (sint (maxTxSize d))) data)) tr)))
         else tx_chunks env d [] (snd (call env (Tx data) tr)))
      else Some (Returns () tr))"

definition sendData :: "Oracle \<Rightarrow> Dev \<Rightarrow> byte list \<Rightarrow> Event list \<Rightarrow> error option outcome option" where
  "sendData env d data tr =
     (case call env (DcOut High) tr of
        (Some err, tr1) \<Rightarrow> Some (Returns (Some err) tr1)
      | (None, tr1) \<Rightarrow>
          (case tx_chunks env d data tr1 of
             None \<Rightarrow> None
           | Some (Panics p) \<Rightarrow> Some (Panics p)
           | Some (Returns u tr2) \<Rightarrow> Some (Returns None tr2)))"

definition send :: "Oracle \<Rightarrow> Dev \<Rightarrow> Command \<Rightarrow> Event list \<Rightarrow> error option outcome option" where
  "send env d command tr =
     (case sendCommand env [Command command] tr of
        (Some err, tr1) \<Rightarrow> Some (Returns (Some err) tr1)
      | (None, tr1) \<Rightarrow>
          (case (case Data command of
                   None \<Rightarrow> Some (Returns None tr1)
                 | Some data \<Rightarrow> sendData env d data tr1) of
             None \<Rightarrow> None
           | Some (Panics p) \<Rightarrow> Some (Panics p)
           | Some (Returns (Some err) tr2) \<Rightarrow> Some (Returns (Some err) tr2)
           | Some (Returns None tr2) \<Rightarrow>
               Some (Returns None
                 (if Delay command \<noteq> 0 then tr2 @ [Sleep (Delay command)] else tr2))))"

definition reset :: "Oracle \<Rightarrow> Event list \<Rightarrow> error option \<times> Event list" where
  "reset env tr =
     (case call env (RstOut High) tr of
        (Some err, tr1) \<Rightarrow> (Some err, tr1)
      | (None, tr1) \<Rightarrow>
          (case call env (RstOut Low) (tr1 @ [Sleep (50 * Millisecond)]) of
             (Some err, tr2) \<Rightarrow> (Some err, tr2)
           | (None, tr2) \<Rightarrow>
               (case call env (RstOut High) (tr2 @ [Sleep (50 * Millisecond)]) of
                  (Some err, tr3) \<Rightarrow> (Some err, tr3)
                | (None, tr3) \<Rightarrow> (None, tr3 @ [Sleep (50 * Millisecond)]))))"

section \<open>Construction\<close>

text \<open>The slice \<open>cmd\<close> that \<open>New\<close> builds by \<open>append\<close>, in order.\<close>

definition initCommands :: "Dev \<Rightarrow> Command list" where
  "initCommands d =
     [\<lparr>Command = softwareRst, Data = None, Delay = 50 * Millisecond\<rparr>,
      \<lparr>Command = sleepOut, Data = None, Delay = 50 * Millisecond\<rparr>,
      \<lparr>Command = frameControl1, Data = Some [0x01, 0x2C, 0x2D], Delay = 0\<rparr>,
      \<lparr>Command = frameControl2, Data = Some [0x01, 0x2C, 0x2D], Delay = 0\<rparr>,
      \<lparr>Command = frameControl3, Data = Some [0x01, 0x2C, 0x2D, 0x01, 0x2C, 0x2D], Delay = 0\<rparr>,
      \<lparr>Command = invControl, Data = Some [0x07], Delay = 0\<rparr>,
      \<lparr>Command = powerControl1, Data = Some [0xA2, 0x02, 0x84], Delay = 0\<rparr>,
      \<lparr>Command = powerControl2, Data = Some [0xC5], Delay = 0\<rparr>,
      \<lparr>Command = powerControl3, Data = Some [0x0A, 0x00], Delay = 0\<rparr>,
      \<lparr>Command = powerControl4, Data = Some [0x8A, 0x2A], Delay = 0\<rparr>,
      \<lparr>Command = powerControl5, Data = Some [0x8A, 0xEE], Delay = 0\<rparr>,
      \<lparr>Command = vmControl1, Data = Some [0x0E], Delay = 0\<rparr>,
      \<lparr>Command = inverseOff, Data = None, Delay = 0\<rparr>,
      \<lparr>Command = memoryDAC, Data = Some [0xC8], Delay = 0\<rparr>,
      \<lparr>Command = pixelFormat, Data = Some [0x05], Delay = 0\<rparr>,
      \<lparr>Command = columnAddress,
        Data = Some [columnAddress, 0x00, OffsetX (Model d), 0x00, OffsetXEnd (Model d)],
        Delay = 0\<rparr>,
      \<lparr>Command = rowAddress,
        Data = Some [rowAddress, 0x00, OffsetY (Model d), 0x00, OffsetYEnd (Model d)],
        Delay = 0\<rparr>,
      \<lparr>Command = gammaControlPositive,
        Data = Some [0x02, 0x1C, 0x07, 0x12, 0x37, 0x32, 0x29, 0x2D,
                     0x29, 0x25, 0x2B, 0x39, 0x00, 0x01, 0x03, 0x10],
        Delay = 0\<rparr>,
      \<lparr>Command = gammaControlNegative,
        Data = Some [0x03, 0x1D, 0x07, 0x06, 0x2E, 0x2C, 0x29, 0x2D,
                     0x2E, 0x2E, 0x37, 0x3F, 0x00, 0x00, 0x02, 0x10],
        Delay = 0\<rparr>,
      \<lparr>Command = partialOff,
        Data = Some [0x03, 0x1D, 0x07, 0x06, 0x2E, 0x2C, 0x29, 0x2D,
                     0x2E, 0x2E, 0x37, 0x3F, 0x00, 0x00, 0x02, 0x10],
        Delay = 10 * Millisecond\<rparr>,
      \<lparr>Command = displayOn,
        Data = Some [0x03, 0x1D, 0x07, 0x06, 0x2E, 0x2C, 0x29, 0x2D,
                     0x2E, 0x2E, 0x37, 0x3F, 0x00, 0x00, 0x02, 0x10],
        Delay = 100 * Millisecond\<rparr>]"

text \<open>The loop \<open>for _, c := range cmd\<close> of \<open>New\<close>, which returns on the first error.\<close>

fun sendAll :: "Oracle \<Rightarrow> Dev \<Rightarrow> Command list \<Rightarrow> Event list \<Rightarrow> error option outcome option" where
  "sendAll env d [] tr = Some (Returns None tr)"
| "sendAll env d (c # cmd) tr =
     (case send env d c tr of
        None \<Rightarrow> None
      | Some (Panics p) \<Rightarrow> Some (Panics p)
      | Some (Returns (Some err) tr1) \<Rightarrow> Some (Returns (Some err) tr1)
      | Some (Returns None tr1) \<Rightarrow> sendAll env d cmd tr1)"

text \<open>
  The size that governs chunking. \<open>limits\<close> is \<open>None\<close> when the connection does not
  implement \<open>conn.Limits\<close> and otherwise holds what \<open>MaxTxSize()\<close> returns; a zero
  becomes 4096.
\<close>

definition negotiate :: "go_int option \<Rightarrow> go_int" where
  "negotiate limits =
     (let maxTxSize0 = (case limits of Some n \<Rightarrow> n | None \<Rightarrow> 0)
      in if maxTxSize0 = 0 then 4096 else maxTxSize0)"

definition newDev :: "go_int option \<Rightarrow> Model \<Rightarrow> Dev" where
  "newDev limits m = \<lparr>maxTxSize = negotiate limits, Model = m\<rparr>"

text \<open>\<open>New\<close>. The result is \<open>Inl\<close> of the error or \<open>Inr\<close> of the handle.\<close>

definition New :: "Oracle \<Rightarrow> go_int option \<Rightarrow> Model \<Rightarrow> Event list \<Rightarrow> (error + Dev) outcome option" where
  "New env limits m tr =
     (case call env (Connect 4000 0 8) tr of
        (Some err, tr1) \<Rightarrow> Some (Returns (Inl (Error ''could not connect to device'')) tr1)
      | (None, tr1) \<Rightarrow>
          (let d = newDev limits m
           in case reset env tr1 of
                (Some err, tr2) \<Rightarrow> Some (Returns (Inl err) tr2)
              | (None, tr2) \<Rightarrow>
                  (case sendAll env d (initCommands d) tr2 of
                     None \<Rightarrow> None
                   | Some (Panics p) \<Rightarrow> Some (Panics p)
                   | Some (Returns (Some err) tr3) \<Rightarrow> Some (Returns (Inl err) tr3)
                   | Some (Returns None tr3) \<Rightarrow> Some (Returns (Inr d) tr3))))"

section \<open>Writing an image\<close>

text \<open>On a \<open>byte\<close> the shift \<open>x0 >> 8\<close> is computed in eight bits.\<close>

definition columnCommand :: "byte \<Rightarrow> byte \<Rightarrow> Command" where
  "columnCommand x0 x1 =
     \<lparr>Command = columnAddress, Data = Some [drop_bit 8 x0, x0, drop_bit 8 x1, x1], Delay = 0\<rparr>"

definition rowCommand :: "byte \<Rightarrow> byte \<Rightarrow> Command" where
  "rowCommand y0 y1 =
     \<lparr>Command = rowAddress, Data = Some [drop_bit 8 y0, y0, drop_bit 8 y1, y1], Delay = 0\<rparr>"

definition setWindowAddress ::
  "Oracle \<Rightarrow> Dev \<Rightarrow> byte \<Rightarrow> byte \<Rightarrow> byte \<Rightarrow> byte \<Rightarrow> Event list \<Rightarrow> error option outcome option" where
  "setWindowAddress env d x0 x1 y0 y1 tr =
     (case send env d (columnCommand x0 x1) tr of
        None \<Rightarrow> None
      | Some (Panics p) \<Rightarrow> Some (Panics p)
      | Some (Returns (Some err) tr1) \<Rightarrow> Some (Returns (Some err) tr1)
      | Some (Returns None tr1) \<Rightarrow>
          (case send env d (rowCommand y0 y1) tr1 of
             None \<Rightarrow> None
           | Some (Panics p) \<Rightarrow> Some (Panics p)
           | Some (Returns (Some err) tr2) \<Rightarrow> Some (Returns (Some err) tr2)
           | Some (Returns None tr2) \<Rightarrow>
               (case sendCommand env [memoryWrite] tr2 of
                  (r, tr3) \<Rightarrow> Some (Returns r tr3))))"

definition SetImage :: "Oracle \<Rightarrow> Dev \<Rightarrow> Image \<Rightarrow> Event list \<Rightarrow> error option outcome option" where
  "SetImage env d img tr =
     (case setWindowAddress env d (OffsetX (Model d)) (OffsetXEnd (Model d))
             (OffsetY (Model d)) (OffsetYEnd (Model d)) tr of
        None \<Rightarrow> None
      | Some (Panics p) \<Rightarrow> Some (Panics p)
      | Some (Returns (Some err) tr1) \<Rightarrow> Some (Returns (Some err) tr1)
      | Some (Returns None tr1) \<Rightarrow>
          (case toRGB565 img of
             Inl p \<Rightarrow> Some (Panics p)
           | Inr rgb565 \<Rightarrow> sendData env d rgb565 tr1))"

section \<open>Observing a trace\<close>


text \<open>
  Collaborators for concrete runs: one that never fails, and one that fails exactly
  the call \<open>ev\<close>, whenever it is made.
\<close>

definition no_errors :: Oracle where
  "no_errors tr ev = None"

definition fails_at :: "Event \<Rightarrow> Oracle" where
  "fails_at ev tr ev' = (if ev' = ev then Some (Error ''failed'') else None)"

text \<open>Images for concrete runs: every pixel has the same colour.\<close>

definition uniform :: "go_int \<Rightarrow> go_int \<Rightarrow> go_int \<Rightarrow> go_int \<Rightarrow> RGBA \<Rightarrow> Image" where
  "uniform x0 y0 x1 y1 c =
     \<lparr>Bounds = \<lparr>Min_pt = \<lparr>X = x0, Y = y0\<rparr>, Max_pt = \<lparr>X = x1, Y = y1\<rparr>\<rparr>, At = (\<lambda>x y. c)\<rparr>"

section \<open>Opcode values\<close>

lemmas opcode_defs =
  softwareRst_def sleepOut_def partialOff_def inverseOff_def displayOn_def
  columnAddress_def rowAddress_def memoryWrite_def memoryDAC_def pixelFormat_def
  frameControl1_def frameControl2_def frameControl3_def invControl_def
  powerControl1_def powerControl2_def powerControl3_def powerControl4_def
  powerControl5_def vmControl1_def gammaControlPositive_def gammaControlNegative_def

section \<open>Recursion equations\<close>

text \<open>The loops are unfolded one step at a time, by hand.\<close>

declare loop_y.simps [simp del] loop_x.simps [simp del]

section \<open>The panel geometry\<close>

text \<open>
  C2. For both geometries the end offsets lie strictly above the start offsets and
  the X range lies within \<open>[0, width)\<close>. The Y range lies within \<open>[0, height)\<close> for
  \<open>ModelStandard\<close>; for \<open>ModelMini\<close> it is \<open>[1, 160]\<close>, within \<open>[0, width)\<close>.
\<close>

theorem geometry_ranges:
  "OffsetX m < OffsetXEnd m \<and> OffsetY m < OffsetYEnd m
   \<and> 0 \<le> uint (OffsetX m) \<and> uint (OffsetXEnd m) < width
   \<and> 0 \<le> uint (OffsetY m) \<and> uint (OffsetYEnd ModelStandard) < height
   \<and> OffsetY ModelMini = 1 \<and> OffsetYEnd ModelMini = 160
   \<and> uint (OffsetYEnd ModelMini) < width"
  by (cases m) (simp_all add: width_def height_def)

text \<open>The Y range of \<open>ModelMini\<close> ends at 160, which is not below \<open>height = 132\<close>.\<close>

theorem mini_y_range_exceeds_height:
  "\<not> uint (OffsetYEnd ModelMini) < height"
  by (simp add: width_def height_def)

section \<open>The packed pixel\<close>

text \<open>
  The three fields of the packed value, read off the shifts and masks: each is taken
  from the low byte of its channel.
\<close>

lemma rgb565_masks:
  "(0xF800 :: uint32) = push_bit 11 (mask 5)"
  "(0x07E0 :: uint32) = push_bit 5 (mask 6)"
  "(0x001F :: uint32) = mask 5"
  by (simp_all add: mask_eq_exp_minus_1)

lemma pack565_red_field: "drop_bit 11 (pack565 r g b) = ucast (take_bit 5 (drop_bit 3 r))"
  unfolding pack565_def rgb565_masks
  by (rule bit_word_eqI) (auto simp add: bit_simps)

lemma pack565_green_field: "take_bit 6 (drop_bit 5 (pack565 r g b)) = ucast (take_bit 6 (drop_bit 2 g))"
  unfolding pack565_def rgb565_masks
  by (rule bit_word_eqI) (auto simp add: bit_simps)

lemma pack565_blue_field: "take_bit 5 (pack565 r g b) = ucast (take_bit 5 (drop_bit 3 b))"
  unfolding pack565_def rgb565_masks
  by (rule bit_word_eqI) (auto simp add: bit_simps)

lemma pack_white: "pack565 65535 65535 65535 = 0xFFFF"
  and pack_red: "pack565 65535 0 0 = 0xF800"
  and pack_green: "pack565 0 65535 0 = 0x07E0"
  and pack_blue: "pack565 0 0 65535 = 0x001F"
  by (simp_all add: pack565_def)

section \<open>The conversion loops\<close>

lemma length_PutUint16: "length (PutUint16 buf i v) = length buf"
  by (simp add: PutUint16_def)

lemma PutUint16_frame: "j < i \<Longrightarrow> PutUint16 buf i v ! j = buf ! j"
  by (simp add: PutUint16_def)

lemma PutUint16_hi: "i + 2 \<le> length buf \<Longrightarrow> PutUint16 buf i v ! i = hi_byte v"
  by (simp add: PutUint16_def)

lemma PutUint16_lo: "i + 2 \<le> length buf \<Longrightarrow> PutUint16 buf i v ! Suc i = lo_byte v"
  by (simp add: PutUint16_def)

lemma loop_y_returns:
  "i + 2 * nat (sint (Y (Max_pt (Bounds img))) - int y) \<le> length buf \<Longrightarrow>
   \<exists>buf'. loop_y img x y (buf, i) = Inr (buf', i + 2 * nat (sint (Y (Max_pt (Bounds img))) - int y))
     \<and> length buf' = length buf
     \<and> (\<forall>j<i. buf' ! j = buf ! j)
     \<and> (\<forall>k. y \<le> k \<and> int k < sint (Y (Max_pt (Bounds img))) \<longrightarrow>
           buf' ! (i + 2 * (k - y)) = hi_byte (pixel565 img x k)
         \<and> buf' ! (i + 2 * (k - y) + 1) = lo_byte (pixel565 img x k))"
proof (induction img x y "(buf, i)" arbitrary: buf i rule: loop_y.induct)
  case (1 img x y rgb565 i)
  let ?H = "sint (Y (Max_pt (Bounds img)))"
  show ?case
  proof (cases "int y < ?H")
    case False
    then have none: "\<And>k. y \<le> k \<Longrightarrow> \<not> int k < ?H" by linarith
    from False have "nat (?H - int y) = 0" by simp
    moreover from False have "loop_y img x y (rgb565, i) = Inr (rgb565, i)"
      by (subst loop_y.simps) simp
    ultimately show ?thesis using none by auto
  next
    case True
    let ?v = "pixel565 img x y"
    let ?b1 = "PutUint16 rgb565 i ?v"
    from True "1.prems" have fits: "i + 2 \<le> length rgb565" by linarith
    have rem: "nat (?H - int y) = Suc (nat (?H - int (y + 1)))"
      using True by linarith
    have "i + 2 + 2 * nat (?H - int (y + 1)) \<le> length ?b1"
      using "1.prems" rem by (simp add: length_PutUint16)
    from "1.hyps"[OF True refl fits this]
    obtain buf' where
      run: "loop_y img x (y + 1) (?b1, i + 2) = Inr (buf', i + 2 + 2 * nat (?H - int (y + 1)))"
      and len: "length buf' = length ?b1"
      and frame: "\<forall>j<i + 2. buf' ! j = ?b1 ! j"
      and written: "\<forall>k. y + 1 \<le> k \<and> int k < ?H \<longrightarrow>
           buf' ! (i + 2 + 2 * (k - (y + 1))) = hi_byte (pixel565 img x k)
         \<and> buf' ! (i + 2 + 2 * (k - (y + 1)) + 1) = lo_byte (pixel565 img x k)"
      by blast
    have r1: "loop_y img x y (rgb565, i) = Inr (buf', i + 2 * nat (?H - int y))"
      using True fits run rem by (subst loop_y.simps) (simp add: Let_def)
    have r2: "length buf' = length rgb565"
      using len by (simp add: length_PutUint16)
    have r3: "\<forall>j<i. buf' ! j = rgb565 ! j"
      using frame by (simp add: PutUint16_frame)
    have r4: "buf' ! (i + 2 * (k - y)) = hi_byte (pixel565 img x k)
         \<and> buf' ! (i + 2 * (k - y) + 1) = lo_byte (pixel565 img x k)"
      if k: "y \<le> k" "int k < ?H" for k
    proof (cases "k = y")
      case True
      have "buf' ! i = ?b1 ! i" "buf' ! (i + 1) = ?b1 ! (i + 1)"
        using frame by simp_all
      then show ?thesis
        using True fits by (simp add: PutUint16_hi PutUint16_lo)
    next
      case False
      then have k1: "y + 1 \<le> k" using k by simp
      then have "i + 2 + 2 * (k - (y + 1)) = i + 2 * (k - y)" by simp
      then show ?thesis using written k1 k(2) by metis
    qed
    show ?thesis using r1 r2 r3 r4 by blast
  qed
qed

lemma loop_y_panics:
  "int y < sint (Y (Max_pt (Bounds img))) \<Longrightarrow>
   length buf < i + 2 * nat (sint (Y (Max_pt (Bounds img))) - int y) \<Longrightarrow>
   loop_y img x y (buf, i) = Inl SliceBoundsOutOfRange"
proof (induction img x y "(buf, i)" arbitrary: buf i rule: loop_y.induct)
  case (1 img x y rgb565 i)
  let ?H = "sint (Y (Max_pt (Bounds img)))"
  show ?case
  proof (cases "i + 2 \<le> length rgb565")
    case False
    then show ?thesis using "1.prems"(1) by (subst loop_y.simps) (simp add: Let_def)
  next
    case True
    have rem: "nat (?H - int y) = Suc (nat (?H - int (y + 1)))"
      using "1.prems"(1) by linarith
    have more: "int (y + 1) < ?H"
      using True "1.prems" by linarith
    have "length (PutUint16 rgb565 i (pixel565 img x y)) < i + 2 + 2 * nat (?H - int (y + 1))"
      using "1.prems"(2) rem by (simp add: length_PutUint16)
    from "1.hyps"[OF "1.prems"(1) refl True more this]
    show ?thesis using "1.prems"(1) True by (subst loop_y.simps) (simp add: Let_def)
  qed
qed


lemma loop_y_column:
  "i + 2 * nat (sint (Y (Max_pt (Bounds img)))) \<le> length buf \<Longrightarrow>
   \<exists>b1. loop_y img x 0 (buf, i) = Inr (b1, i + 2 * nat (sint (Y (Max_pt (Bounds img)))))
     \<and> length b1 = length buf
     \<and> (\<forall>j<i. b1 ! j = buf ! j)
     \<and> (\<forall>k. int k < sint (Y (Max_pt (Bounds img))) \<longrightarrow>
           b1 ! (i + 2 * k) = hi_byte (pixel565 img x k)
         \<and> b1 ! (i + 2 * k + 1) = lo_byte (pixel565 img x k))"
  using loop_y_returns[of i img 0 buf x] by simp


lemma loop_x_panics:
  "int x < sint (X (Max_pt (Bounds img))) \<Longrightarrow> 0 < sint (Y (Max_pt (Bounds img))) \<Longrightarrow>
   length buf < i + 2 * (nat (sint (X (Max_pt (Bounds img))) - int x) * nat (sint (Y (Max_pt (Bounds img))))) \<Longrightarrow>
   loop_x img x (buf, i) = Inl SliceBoundsOutOfRange"
proof (induction img x "(buf, i)" arbitrary: buf i rule: loop_x.induct)
  case (1 img x buf i)
  let ?W = "sint (X (Max_pt (Bounds img)))"
  let ?H = "sint (Y (Max_pt (Bounds img)))"
  let ?h = "nat ?H"
  have rem: "nat (?W - int x) = Suc (nat (?W - int (x + 1)))"
    using "1.prems"(1) by linarith
  have split: "i + 2 * (nat (?W - int x) * ?h) = i + 2 * ?h + 2 * (nat (?W - int (x + 1)) * ?h)"
    by (simp add: rem algebra_simps)
  show ?case
  proof (cases "i + 2 * ?h \<le> length buf")
    case False
    then have "length buf < i + 2 * nat (?H - int 0)" by simp
    moreover have "int 0 < ?H" using "1.prems"(2) by simp
    ultimately have "loop_y img x 0 (buf, i) = Inl SliceBoundsOutOfRange"
      by (rule loop_y_panics[rotated])
    then show ?thesis using "1.prems"(1) by (subst loop_x.simps) simp
  next
    case True
    from loop_y_column[OF True, of x]
    obtain b1 where
      run1: "loop_y img x 0 (buf, i) = Inr (b1, i + 2 * ?h)"
      and len1: "length b1 = length buf"
      by blast
    have short: "length b1 < i + 2 * ?h + 2 * (nat (?W - int (x + 1)) * ?h)"
      using "1.prems"(3) split len1 by simp
    with True len1 have more: "int (x + 1) < ?W"
      by (cases "int (x + 1) < ?W") auto
    from "1.hyps"[OF "1.prems"(1) run1 more "1.prems"(2) short]
    show ?thesis using "1.prems"(1) run1 by (subst loop_x.simps) simp
  qed
qed

lemma sint_buffer_len:
  "sint (a * b * 2 :: go_int) = signed_take_bit 63 (sint a * sint b * 2)"
proof -
  have "sint (a * b * 2) = signed_take_bit 63 (signed_take_bit 63 (sint a * sint b) * signed_take_bit 63 2)"
    by (simp add: sint_word_ariths)
  also have "\<dots> = signed_take_bit 63 (sint a * sint b * 2)"
    by (rule signed_take_bit_mult)
  finally show ?thesis .
qed

lemma sint_diff_nonneg:
  "0 \<le> sint b \<Longrightarrow> sint b \<le> sint a \<Longrightarrow> sint (a - b :: go_int) = sint a - sint b"
proof -
  assume b: "0 \<le> sint b" and ab: "sint b \<le> sint a"
  have "sint a < 2 ^ 63" using sint_lt[of a] by simp
  then have "- (2 ^ 63) \<le> sint a - sint b" "sint a - sint b < 2 ^ 63"
    using b ab by linarith+
  then show ?thesis
    by (simp add: sint_word_ariths signed_take_bit_int_eq_self)
qed


lemma toRGB565_1x1:
  assumes "Bounds img = \<lparr>Min_pt = \<lparr>X = 0, Y = 0\<rparr>, Max_pt = \<lparr>X = 1, Y = 1\<rparr>\<rparr>"
  shows "toRGB565 img = Inr [hi_byte (pixel565 img 0 0), lo_byte (pixel565 img 0 0)]"
proof -
  have y1: "loop_y img 0 (Suc 0) (buf, i) = Inr (buf, i)" for buf i
    by (subst loop_y.simps) (simp add: assms)
  have y0: "loop_y img 0 0 (replicate 2 0, 0) =
      Inr ([hi_byte (pixel565 img 0 0), lo_byte (pixel565 img 0 0)], 2)"
    by (subst loop_y.simps) (simp add: assms y1 Let_def PutUint16_def numeral_2_eq_2)
  have x1: "loop_x img (Suc 0) s = Inr s" for s
    by (subst loop_x.simps) (simp add: assms)
  have x0: "loop_x img 0 (replicate 2 0, 0) =
      Inr ([hi_byte (pixel565 img 0 0), lo_byte (pixel565 img 0 0)], 2)"
    by (subst loop_x.simps) (simp add: assms y0 x1)
  show ?thesis
    by (simp add: toRGB565_def Dx_def Dy_def assms x0)
qed

section \<open>Claims about the conversion\<close>

text \<open>
  C1. The claim asks for the top five bits of the 16-bit red channel in bits 15..11.
  On the one-pixel image with red channel \<open>0xFF00\<close> those bits are 31, yet the
  conversion yields two zero bytes: \<open>r << 8\<close> moves bits 7..3 of the channel, not
  bits 15..11, under the mask (see \<open>pack565_red_field\<close>).
\<close>

theorem toRGB565_red_high_byte_lost:
  "toRGB565 (uniform 0 0 1 1 (0xFF00, 0, 0, 0xFFFF)) = Inr [0x00, 0x00]
   \<and> drop_bit 11 (0xFF00 :: uint32) = 31"
  by (simp add: toRGB565_1x1 uniform_def pixel565_def pack565_def hi_byte_def lo_byte_def)

text \<open>
  C3. A 1\<times>1 image with bounds \<open>[0,1)\<times>[0,1)\<close> converts to exactly two bytes:
  \<open>FF FF\<close> for white, \<open>F8 00\<close> for pure red, \<open>07 E0\<close> for pure green and \<open>00 1F\<close> for
  pure blue, whatever the alpha.
\<close>

theorem toRGB565_single_pixel:
  assumes "Bounds img = \<lparr>Min_pt = \<lparr>X = 0, Y = 0\<rparr>, Max_pt = \<lparr>X = 1, Y = 1\<rparr>\<rparr>"
  shows "(At img 0 0 = (65535, 65535, 65535, a) \<longrightarrow> toRGB565 img = Inr [0xFF, 0xFF])
       \<and> (At img 0 0 = (65535, 0, 0, a) \<longrightarrow> toRGB565 img = Inr [0xF8, 0x00])
       \<and> (At img 0 0 = (0, 65535, 0, a) \<longrightarrow> toRGB565 img = Inr [0x07, 0xE0])
       \<and> (At img 0 0 = (0, 0, 65535, a) \<longrightarrow> toRGB565 img = Inr [0x00, 0x1F])"
  by (simp add: toRGB565_1x1[OF assms] pixel565_def pack_white pack_red pack_green pack_blue
        hi_byte_def lo_byte_def)

theorem toRGB565_single_pixel_witness:
  "toRGB565 (uniform 0 0 1 1 (65535, 65535, 65535, 65535)) = Inr [0xFF, 0xFF]
 \<and> toRGB565 (uniform 0 0 1 1 (65535, 0, 0, 65535)) = Inr [0xF8, 0x00]
 \<and> toRGB565 (uniform 0 0 1 1 (0, 65535, 0, 65535)) = Inr [0x07, 0xE0]
 \<and> toRGB565 (uniform 0 0 1 1 (0, 0, 65535, 0)) = Inr [0x00, 0x1F]"
  using toRGB565_single_pixel[of "uniform 0 0 1 1 (65535, 65535, 65535, 65535)" 65535]
    toRGB565_single_pixel[of "uniform 0 0 1 1 (65535, 0, 0, 65535)" 65535]
    toRGB565_single_pixel[of "uniform 0 0 1 1 (0, 65535, 0, 65535)" 65535]
    toRGB565_single_pixel[of "uniform 0 0 1 1 (0, 0, 65535, 0)" 0]
  by (simp add: uniform_def)



text \<open>
  C9. The buffer has \<open>2 * Dx * Dy\<close> bytes, but the loops run over
  \<open>[0, Max.X)\<times>[0, Max.Y)\<close>. For every non-empty image whose bounds minimum has
  non-negative coordinates, one of them positive, \<open>Max.X * Max.Y > Dx * Dy\<close> and the
  call panics: the slice expression goes out of range (or, when the length wraps to
  a negative number, the allocation does).
\<close>

theorem toRGB565_offset_bounds_panic:
  assumes minx: "0 \<le> sint (X (Min_pt (Bounds img)))"
    and miny: "0 \<le> sint (Y (Min_pt (Bounds img)))"
    and nex: "sint (X (Min_pt (Bounds img))) < sint (X (Max_pt (Bounds img)))"
    and ney: "sint (Y (Min_pt (Bounds img))) < sint (Y (Max_pt (Bounds img)))"
    and off: "0 < sint (X (Min_pt (Bounds img))) \<or> 0 < sint (Y (Min_pt (Bounds img)))"
  shows "sint (Dx (Bounds img)) * sint (Dy (Bounds img))
           < sint (X (Max_pt (Bounds img))) * sint (Y (Max_pt (Bounds img)))
       \<and> toRGB565 img =
           Inl (if sint (Dx (Bounds img) * Dy (Bounds img) * 2) < 0
                then MakeSliceLenOutOfRange else SliceBoundsOutOfRange)"
proof -
  let ?mx = "sint (X (Min_pt (Bounds img)))" and ?my = "sint (Y (Min_pt (Bounds img)))"
  let ?W = "sint (X (Max_pt (Bounds img)))" and ?H = "sint (Y (Max_pt (Bounds img)))"
  let ?n = "sint (Dx (Bounds img) * Dy (Bounds img) * 2)"
  have dx: "sint (Dx (Bounds img)) = ?W - ?mx"
    unfolding Dx_def using minx nex by (intro sint_diff_nonneg) simp_all
  have dy: "sint (Dy (Bounds img)) = ?H - ?my"
    unfolding Dy_def using miny ney by (intro sint_diff_nonneg) simp_all
  have Wpos: "0 < ?W" and Hpos: "0 < ?H" using minx miny nex ney by linarith+
  have less: "(?W - ?mx) * (?H - ?my) < ?W * ?H"
  proof (cases "0 < ?mx")
    case True
    have "(?W - ?mx) * (?H - ?my) \<le> (?W - ?mx) * ?H"
      using miny nex by (intro mult_left_mono) simp_all
    also have "\<dots> < ?W * ?H"
      using True Hpos by (intro mult_strict_right_mono) simp_all
    finally show ?thesis .
  next
    case False
    with off have my: "0 < ?my" by simp
    have "(?W - ?mx) * (?H - ?my) \<le> ?W * (?H - ?my)"
      using minx ney by (intro mult_right_mono) simp_all
    also have "\<dots> < ?W * ?H"
      using my Wpos by (intro mult_strict_left_mono) simp_all
    finally show ?thesis .
  qed
  have nonneg: "0 \<le> (?W - ?mx) * (?H - ?my) * 2"
    using nex ney by simp
  have "?n = signed_take_bit 63 ((?W - ?mx) * (?H - ?my) * 2)"
    by (simp add: sint_buffer_len dx dy)
  also have "\<dots> \<le> (?W - ?mx) * (?H - ?my) * 2"
    using nonneg by (simp add: signed_take_bit_int_less_eq_self_iff)
  finally have small: "?n < 2 * (?W * ?H)" using less by linarith
  have run: "toRGB565 img = Inl SliceBoundsOutOfRange" if "\<not> ?n < 0"
  proof -
    have "nat (2 * (?W * ?H)) = 2 * (nat ?W * nat ?H)"
      using Wpos Hpos by (simp add: nat_mult_distrib)
    moreover have "nat ?n < nat (2 * (?W * ?H))"
      using small that by simp
    ultimately have "length (replicate (nat ?n) (0::byte)) < 0 + 2 * (nat (?W - int 0) * nat ?H)"
      by simp
    moreover have "int 0 < ?W" using Wpos by simp
    ultimately have "loop_x img 0 (replicate (nat ?n) 0, 0) = Inl SliceBoundsOutOfRange"
      using Hpos by (intro loop_x_panics)
    then show ?thesis using that unfolding toRGB565_def Let_def by simp
  qed
  have neg: "toRGB565 img = Inl MakeSliceLenOutOfRange" if "?n < 0"
    using that unfolding toRGB565_def Let_def by simp
  have "sint (Dx (Bounds img)) * sint (Dy (Bounds img)) < ?W * ?H"
    using less by (simp only: dx dy)
  moreover have "toRGB565 img = Inl (if ?n < 0 then MakeSliceLenOutOfRange else SliceBoundsOutOfRange)"
    using run neg by (cases "?n < 0") simp_all
  ultimately show ?thesis ..
qed

theorem toRGB565_offset_bounds_panic_witness:
  "toRGB565 (uniform 1 1 2 2 (65535, 0, 0, 65535)) = Inl SliceBoundsOutOfRange"
  using toRGB565_offset_bounds_panic[of "uniform 1 1 2 2 (65535, 0, 0, 65535)"]
  by (simp add: uniform_def Dx_def Dy_def)

text \<open>
  An image with \<open>Min.X = 1 > 0\<close> on which the conversion returns: its bounds are
  \<open>[1,2)\<times>[-3,1)\<close>, so the buffer has 8 bytes and the loops write 4 of them.
\<close>

theorem toRGB565_offset_image_returns:
  "0 < sint (X (Min_pt (Bounds (uniform 1 (-3) 2 1 (65535, 0, 0, 65535)))))
   \<and> toRGB565 (uniform 1 (-3) 2 1 (65535, 0, 0, 65535)) = Inr [0xF8, 0, 0xF8, 0, 0, 0, 0, 0]"
  by code_simp

section \<open>The chunking loop\<close>

lemma tx_chunks_nil: "tx_chunks env d [] tr = Some (Returns () tr)"
  by (subst tx_chunks.simps) simp

lemma tx_chunks_total:
  assumes m: "0 < sint (maxTxSize d)"
  shows "\<exists>cs. tx_chunks env d data tr = Some (Returns () (tr @ map Tx cs))
           \<and> concat cs = data \<and> (\<forall>c\<in>set cs. c \<noteq> [] \<and> int (length c) \<le> sint (maxTxSize d))"
proof (induction "length data" arbitrary: data tr rule: less_induct)
  case less
  let ?m = "nat (sint (maxTxSize d))"
  show ?case
  proof (cases "data = []")
    case True
    then have "tx_chunks env d data tr = Some (Returns () (tr @ map Tx []))"
      by (simp add: tx_chunks_nil)
    with True show ?thesis by (intro exI[of _ "[]"]) simp
  next
    case ne: False
    show ?thesis
    proof (cases "int (length data) > sint (maxTxSize d)")
      case True
      have mpos: "0 < ?m" using m by simp
      have shorter: "length (drop ?m data) < length data"
        using mpos ne by simp
      from less[OF shorter, of "tr @ [Tx (take ?m data)]"]
      obtain cs where run: "tx_chunks env d (drop ?m data) (tr @ [Tx (take ?m data)]) =
            Some (Returns () ((tr @ [Tx (take ?m data)]) @ map Tx cs))"
        and cat: "concat cs = drop ?m data"
        and each: "\<forall>c\<in>set cs. c \<noteq> [] \<and> int (length c) \<le> sint (maxTxSize d)"
        by blast
      have r1: "tx_chunks env d data tr = Some (Returns () (tr @ map Tx (take ?m data # cs)))"
        using ne True m run by (subst tx_chunks.simps) (simp add: call_def)
      have r2: "concat (take ?m data # cs) = data" using cat by simp
      have "take ?m data \<noteq> []" using ne mpos by simp
      moreover have "int (length (take ?m data)) \<le> sint (maxTxSize d)" using True m by simp
      ultimately have r3: "\<forall>c\<in>set (take ?m data # cs). c \<noteq> [] \<and> int (length c) \<le> sint (maxTxSize d)"
        using each by simp
      show ?thesis using r1 r2 r3 by blast
    next
      case False
      have "tx_chunks env d data tr = Some (Returns () (tr @ map Tx [data]))"
        using ne False by (subst tx_chunks.simps) (simp add: call_def tx_chunks_nil)
      moreover have "concat [data] = data" by simp
      moreover have "\<forall>c\<in>set [data]. c \<noteq> [] \<and> int (length c) \<le> sint (maxTxSize d)"
        using ne False by simp
      ultimately show ?thesis by blast
    qed
  qed
qed


lemma tx_chunks_small:
  "data \<noteq> [] \<Longrightarrow> int (length data) \<le> sint (maxTxSize d) \<Longrightarrow>
   tx_chunks env d data tr = Some (Returns () (tr @ [Tx data]))"
  by (subst tx_chunks.simps) (simp add: call_def tx_chunks_nil)

lemma tx_chunks_step:
  "0 \<le> sint (maxTxSize d) \<Longrightarrow> sint (maxTxSize d) < int (length data) \<Longrightarrow>
   tx_chunks env d data tr =
     tx_chunks env d (drop (nat (sint (maxTxSize d))) data)
       (tr @ [Tx (take (nat (sint (maxTxSize d))) data)])"
  by (subst tx_chunks.simps) (auto simp add: call_def)



text \<open>A negative size panics on the first chunk; a zero size never returns.\<close>

lemma tx_chunks_negative_size_panics:
  "sint (maxTxSize d) < 0 \<Longrightarrow> data \<noteq> [] \<Longrightarrow>
   tx_chunks env d data tr = Some (Panics SliceBoundsOutOfRange)"
  by (subst tx_chunks.simps) simp

lemma tx_chunks_zero_size_aux:
  "tx_chunks env d data tr = Some r \<Longrightarrow> \<not> (sint (maxTxSize d) = 0 \<and> data \<noteq> [])"
proof (induction rule: tx_chunks.raw_induct[rotated 1, consumes 1, case_names step])
  case (step f env d data tr r)
  show ?case
  proof
    assume z: "sint (maxTxSize d) = 0 \<and> data \<noteq> []"
    with step.hyps have "f env d data (tr @ [Tx []]) = Some r"
      by (simp add: call_def)
    from step.IH[OF this] z show False by simp
  qed
qed

lemma tx_chunks_zero_size_diverges:
  "sint (maxTxSize d) = 0 \<Longrightarrow> data \<noteq> [] \<Longrightarrow> tx_chunks env d data tr = None"
  using tx_chunks_zero_size_aux[of env d data tr] by (cases "tx_chunks env d data tr") auto

lemma sendData_dc_fails:
  "env tr (DcOut High) = Some e \<Longrightarrow>
   sendData env d data tr = Some (Returns (Some e) (tr @ [DcOut High]))"
  by (simp add: sendData_def call_def)

lemma sendData_chunked:
  assumes dc: "env tr (DcOut High) = None" and m: "0 < sint (maxTxSize d)"
  shows "\<exists>cs. sendData env d data tr = Some (Returns None (tr @ DcOut High # map Tx cs))
           \<and> concat cs = data \<and> (\<forall>c\<in>set cs. c \<noteq> [] \<and> int (length c) \<le> sint (maxTxSize d))"
proof -
  from tx_chunks_total[OF m, of env data "tr @ [DcOut High]"]
  obtain cs where run: "tx_chunks env d data (tr @ [DcOut High]) = Some (Returns () ((tr @ [DcOut High]) @ map Tx cs))"
    and rest: "concat cs = data" "\<forall>c\<in>set cs. c \<noteq> [] \<and> int (length c) \<le> sint (maxTxSize d)"
    by blast
  have "sendData env d data tr = Some (Returns None (tr @ DcOut High # map Tx cs))"
    using dc run by (simp add: sendData_def call_def)
  with rest show ?thesis by blast
qed

section \<open>Claims about the data transfer\<close>

text \<open>
  C5. With a positive transaction size \<open>sendData\<close> returns, and what it returns is
  exactly the result of the data/command-pin write: no transaction result, that of
  the first chunk included, reaches the caller.
\<close>

theorem sendData_result_is_pin_result:
  assumes "0 < sint (maxTxSize d)"
  shows "\<exists>tr'. sendData env d data tr = Some (Returns (env tr (DcOut High)) tr')"
proof (cases "env tr (DcOut High)")
  case None
  with sendData_chunked[of env tr d data] assms show ?thesis by auto
next
  case (Some e)
  then show ?thesis by (simp add: sendData_dc_fails)
qed

theorem sendData_result_is_pin_result_witness:
  "\<exists>tr'. sendData (fails_at (DcOut High)) (newDev None ModelStandard) [1, 2, 3] [] =
      Some (Returns (Some (Error ''failed'')) tr')"
  using sendData_result_is_pin_result[of "newDev None ModelStandard" "fails_at (DcOut High)" "[1, 2, 3]" "[]"]
  by (simp add: newDev_def negotiate_def fails_at_def)

text \<open>
  A run in which the pin write succeeds and the transaction of the first (and only)
  chunk fails: \<open>sendData\<close> returns nil.
\<close>

theorem sendData_drops_first_chunk_error:
  "fails_at (Tx [1, 2, 3]) [DcOut High] (Tx [1, 2, 3]) = Some (Error ''failed'')
   \<and> sendData (fails_at (Tx [1, 2, 3])) (newDev None ModelStandard) [1, 2, 3] [] =
       Some (Returns None [DcOut High, Tx [1, 2, 3]])"
  by (simp add: sendData_def call_def fails_at_def tx_chunks_small newDev_def negotiate_def)

text \<open>
  C6. When the pin write succeeds: with a transaction size of 4096 a buffer of 10000
  bytes goes out in exactly three transactions, of 4096, 4096 and 1808 bytes, in
  this order; with any positive size every chunk is non-empty and at most that size,
  each chunk is one transaction, and the chunks concatenate to the buffer.
\<close>

theorem sendData_chunking:
  assumes dc: "env tr (DcOut High) = None"
  shows "(sint (maxTxSize d) = 4096 \<and> length data = 10000 \<longrightarrow>
            sendData env d data tr =
              Some (Returns None (tr @ [DcOut High, Tx (take 4096 data),
                                       Tx (take 4096 (drop 4096 data)), Tx (drop 8192 data)]))
            \<and> length (take 4096 data) = 4096
            \<and> length (take 4096 (drop 4096 data)) = 4096
            \<and> length (drop 8192 data) = 1808)
       \<and> (0 < sint (maxTxSize d) \<longrightarrow>
            (\<exists>cs. sendData env d data tr = Some (Returns None (tr @ DcOut High # map Tx cs))
                \<and> concat cs = data
                \<and> (\<forall>c\<in>set cs. c \<noteq> [] \<and> int (length c) \<le> sint (maxTxSize d))))"
proof (intro conjI impI)
  assume "0 < sint (maxTxSize d)"
  then show "\<exists>cs. sendData env d data tr = Some (Returns None (tr @ DcOut High # map Tx cs))
                \<and> concat cs = data
                \<and> (\<forall>c\<in>set cs. c \<noteq> [] \<and> int (length c) \<le> sint (maxTxSize d))"
    using sendData_chunked[of env tr d data] dc by simp
next
  assume a: "sint (maxTxSize d) = 4096 \<and> length data = 10000"
  then have m: "sint (maxTxSize d) = 4096" and len: "length data = 10000" by simp_all
  let ?t1 = "tr @ [DcOut High]"
  have s1: "tx_chunks env d data ?t1 = tx_chunks env d (drop 4096 data) (?t1 @ [Tx (take 4096 data)])"
    using tx_chunks_step[of d data env ?t1] m len by simp
  have s2: "tx_chunks env d (drop 4096 data) (?t1 @ [Tx (take 4096 data)]) =
      tx_chunks env d (drop 8192 data) (?t1 @ [Tx (take 4096 data), Tx (take 4096 (drop 4096 data))])"
    using tx_chunks_step[of d "drop 4096 data" env "?t1 @ [Tx (take 4096 data)]"] m len by simp
  have s3: "tx_chunks env d (drop 8192 data) (?t1 @ [Tx (take 4096 data), Tx (take 4096 (drop 4096 data))]) =
      Some (Returns () ((?t1 @ [Tx (take 4096 data), Tx (take 4096 (drop 4096 data))]) @ [Tx (drop 8192 data)]))"
    using m len by (intro tx_chunks_small) auto
  show "sendData env d data tr =
              Some (Returns None (tr @ [DcOut High, Tx (take 4096 data),
                                       Tx (take 4096 (drop 4096 data)), Tx (drop 8192 data)]))"
  proof -
    have "tx_chunks env d data ?t1 =
        Some (Returns () ((?t1 @ [Tx (take 4096 data), Tx (take 4096 (drop 4096 data))]) @ [Tx (drop 8192 data)]))"
      by (simp only: s1 s2 s3)
    then have "tx_chunks env d data (tr @ [DcOut High]) =
        Some (Returns () (tr @ [DcOut High, Tx (take 4096 data),
                                Tx (take 4096 (drop 4096 data)), Tx (drop 8192 data)]))"
      by simp
    then show ?thesis using dc by (simp add: sendData_def call_def)
  qed
  show "length (take 4096 data) = 4096" "length (take 4096 (drop 4096 data)) = 4096"
    "length (drop 8192 data) = 1808"
    using len by simp_all
qed

theorem sendData_chunking_witness:
  "sendData no_errors (newDev None ModelStandard) (replicate 10000 0) [] =
     Some (Returns None [DcOut High, Tx (replicate 4096 0), Tx (replicate 4096 0), Tx (replicate 1808 0)])
   \<and> (\<exists>cs. sendData no_errors (newDev (Some 3) ModelStandard) [1, 2, 3, 4] [] =
              Some (Returns None (DcOut High # map Tx cs)) \<and> concat cs = [1, 2, 3, 4])"
  using sendData_chunking[of no_errors "[]" "newDev None ModelStandard" "replicate 10000 0"]
    sendData_chunking[of no_errors "[]" "newDev (Some 3) ModelStandard" "[1, 2, 3, 4]"]
  by (auto simp add: no_errors_def newDev_def negotiate_def)

section \<open>Traces of the command loop\<close>

lemma sendCommand_cases:
  "sendCommand env c tr =
     (case env tr (DcOut Low) of
        Some e \<Rightarrow> (Some e, tr @ [DcOut Low])
      | None \<Rightarrow> (env (tr @ [DcOut Low]) (Tx c), tr @ [DcOut Low, Tx c]))"
  by (simp add: sendCommand_def call_def split: option.splits)

lemma sendAll_append:
  "sendAll env d (xs @ ys) tr =
     (case sendAll env d xs tr of
        Some (Returns None tr1) \<Rightarrow> sendAll env d ys tr1
      | r \<Rightarrow> r)"
  by (induction xs arbitrary: tr) (auto split: option.splits outcome.splits)


















text \<open>Runs in which no call fails.\<close>

lemma send_no_errors_plain:
  "send no_errors d \<lparr>Command = op, Data = None, Delay = dl\<rparr> tr =
     Some (Returns None (tr @ [DcOut Low, Tx [op]] @ (if dl \<noteq> 0 then [Sleep dl] else [])))"
  by (simp add: send_def sendCommand_cases no_errors_def)

lemma send_no_errors_data:
  assumes "data \<noteq> []" and "int (length data) \<le> sint (maxTxSize d)"
  shows "send no_errors d \<lparr>Command = op, Data = Some data, Delay = dl\<rparr> tr =
     Some (Returns None (tr @ [DcOut Low, Tx [op], DcOut High, Tx data]
                            @ (if dl \<noteq> 0 then [Sleep dl] else [])))"
  using assms
  by (simp add: send_def sendCommand_cases sendData_def call_def no_errors_def tx_chunks_small)

lemma send_no_errors_total:
  assumes "0 < sint (maxTxSize d)"
  shows "\<exists>tr'. send no_errors d c tr = Some (Returns None tr')"
proof (cases "Data c")
  case None
  then show ?thesis by (simp add: send_def sendCommand_cases no_errors_def)
next
  case (Some data)
  have "no_errors (tr @ [DcOut Low, Tx [Command c]]) (DcOut High) = None"
    by (simp add: no_errors_def)
  from sendData_chunked[of no_errors _ d data, OF this assms]
  obtain cs where "sendData no_errors d data (tr @ [DcOut Low, Tx [Command c]]) =
      Some (Returns None ((tr @ [DcOut Low, Tx [Command c]]) @ DcOut High # map Tx cs))"
    by blast
  with Some show ?thesis by (simp add: send_def sendCommand_cases no_errors_def)
qed

lemma sendAll_no_errors_total:
  assumes "0 < sint (maxTxSize d)"
  shows "\<exists>tr'. sendAll no_errors d cmds tr = Some (Returns None tr')"
proof (induction cmds arbitrary: tr)
  case Nil
  then show ?case by simp
next
  case (Cons c cmds)
  from send_no_errors_total[OF assms, of c tr] obtain tr1 where
    "send no_errors d c tr = Some (Returns None tr1)" by blast
  with Cons.IH[of tr1] show ?case by simp
qed

lemma standard_dev_size: "sint (maxTxSize (newDev None m)) = 4096"
  by (simp add: newDev_def negotiate_def)


section \<open>Claims about construction\<close>

text \<open>
  C4. The claim has partial-mode-off and display-on sent without payload. In the
  table both carry the sixteen bytes of the negative gamma curve, and a run of
  \<open>New\<close> in which nothing fails ends by transmitting them in data mode after each of
  the two opcodes, before the delays of 10 ms and 100 ms.
\<close>

theorem New_sends_payload_after_display_commands:
  "initCommands d ! 19 =
     \<lparr>Command = partialOff,
      Data = Some [0x03, 0x1D, 0x07, 0x06, 0x2E, 0x2C, 0x29, 0x2D,
                   0x2E, 0x2E, 0x37, 0x3F, 0x00, 0x00, 0x02, 0x10],
      Delay = 10 * Millisecond\<rparr>
   \<and> initCommands d ! 20 =
     \<lparr>Command = displayOn,
      Data = Some [0x03, 0x1D, 0x07, 0x06, 0x2E, 0x2C, 0x29, 0x2D,
                   0x2E, 0x2E, 0x37, 0x3F, 0x00, 0x00, 0x02, 0x10],
      Delay = 100 * Millisecond\<rparr>
   \<and> (\<exists>tr. New no_errors None ModelStandard [] =
         Some (Returns (Inr (newDev None ModelStandard))
           (tr @ [DcOut Low, Tx [partialOff], DcOut High,
                  Tx [0x03, 0x1D, 0x07, 0x06, 0x2E, 0x2C, 0x29, 0x2D,
                      0x2E, 0x2E, 0x37, 0x3F, 0x00, 0x00, 0x02, 0x10],
                  Sleep (10 * Millisecond),
                  DcOut Low, Tx [displayOn], DcOut High,
                  Tx [0x03, 0x1D, 0x07, 0x06, 0x2E, 0x2C, 0x29, 0x2D,
                      0x2E, 0x2E, 0x37, 0x3F, 0x00, 0x00, 0x02, 0x10],
                  Sleep (100 * Millisecond)])))"
proof (intro conjI)
  show "initCommands d ! 19 =
     \<lparr>Command = partialOff,
      Data = Some [0x03, 0x1D, 0x07, 0x06, 0x2E, 0x2C, 0x29, 0x2D,
                   0x2E, 0x2E, 0x37, 0x3F, 0x00, 0x00, 0x02, 0x10],
      Delay = 10 * Millisecond\<rparr>"
    by (simp add: initCommands_def)
  show "initCommands d ! 20 =
     \<lparr>Command = displayOn,
      Data = Some [0x03, 0x1D, 0x07, 0x06, 0x2E, 0x2C, 0x29, 0x2D,
                   0x2E, 0x2E, 0x37, 0x3F, 0x00, 0x00, 0x02, 0x10],
      Delay = 100 * Millisecond\<rparr>"
    by (simp add: initCommands_def)
  let ?d = "newDev None ModelStandard"
  let ?gamma = "[0x03, 0x1D, 0x07, 0x06, 0x2E, 0x2C, 0x29, 0x2D,
                 0x2E, 0x2E, 0x37, 0x3F, 0x00, 0x00, 0x02, 0x10] :: byte list"
  let ?c19 = "\<lparr>Command = partialOff, Data = Some ?gamma, Delay = 10 * Millisecond\<rparr>"
  let ?c20 = "\<lparr>Command = displayOn, Data = Some ?gamma, Delay = 100 * Millisecond\<rparr>"
  let ?tail = "[DcOut Low, Tx [partialOff], DcOut High, Tx ?gamma, Sleep (10 * Millisecond),
                DcOut Low, Tx [displayOn], DcOut High, Tx ?gamma, Sleep (100 * Millisecond)]"
  let ?tr2 = "[Connect 4000 0 8, RstOut High, Sleep (50 * Millisecond), RstOut Low,
       Sleep (50 * Millisecond), RstOut High, Sleep (50 * Millisecond)]"
  have m: "sint (maxTxSize ?d) = 4096" by (rule standard_dev_size)
  have table: "initCommands ?d = take 19 (initCommands ?d) @ [?c19, ?c20]"
    by (simp add: initCommands_def)
  have pos: "0 < sint (maxTxSize ?d)" by (simp add: m)
  from sendAll_no_errors_total[OF pos]
  obtain t19 where before: "sendAll no_errors ?d (take 19 (initCommands ?d)) ?tr2 = Some (Returns None t19)"
    by blast
  have last2: "sendAll no_errors ?d [?c19, ?c20] t19 = Some (Returns None (t19 @ ?tail))"
    by (simp add: send_no_errors_data m Millisecond_def)
  have "sendAll no_errors ?d (initCommands ?d) ?tr2 =
      sendAll no_errors ?d (take 19 (initCommands ?d) @ [?c19, ?c20]) ?tr2"
    by (rule arg_cong[where f = "\<lambda>cs. sendAll no_errors ?d cs ?tr2", OF table])
  also have "\<dots> = Some (Returns None (t19 @ ?tail))"
    by (simp only: sendAll_append before last2 option.case outcome.case)
  finally have "New no_errors None ModelStandard [] = Some (Returns (Inr ?d) (t19 @ ?tail))"
    by (simp add: New_def call_def reset_def no_errors_def Let_def)
  then show "\<exists>tr. New no_errors None ModelStandard [] = Some (Returns (Inr ?d) (tr @ ?tail))"
    by (rule exI[of _ t19])
qed

text \<open>
  C10. In the table the column and row commands carry five bytes, the opcode
  repeated and then \<open>0, start, 0, end\<close>; \<open>setWindowAddress\<close> sends four bytes,
  \<open>0, start, 0, end\<close>, the high bytes being zero. When no call fails and a
  transaction holds five bytes, these are the payloads on the bus, and for the same
  window they differ.
\<close>

theorem window_payloads_differ:
  assumes m: "5 \<le> sint (maxTxSize d)"
  shows "initCommands d ! 15 =
       \<lparr>Command = columnAddress,
        Data = Some [columnAddress, 0, OffsetX (Model d), 0, OffsetXEnd (Model d)], Delay = 0\<rparr>
     \<and> initCommands d ! 16 =
       \<lparr>Command = rowAddress,
        Data = Some [rowAddress, 0, OffsetY (Model d), 0, OffsetYEnd (Model d)], Delay = 0\<rparr>
     \<and> send no_errors d (initCommands d ! 15) tr =
         Some (Returns None (tr @ [DcOut Low, Tx [columnAddress], DcOut High,
            Tx [columnAddress, 0, OffsetX (Model d), 0, OffsetXEnd (Model d)]]))
     \<and> send no_errors d (initCommands d ! 16) tr =
         Some (Returns None (tr @ [DcOut Low, Tx [rowAddress], DcOut High,
            Tx [rowAddress, 0, OffsetY (Model d), 0, OffsetYEnd (Model d)]]))
     \<and> setWindowAddress no_errors d x0 x1 y0 y1 tr =
         Some (Returns None (tr @ [DcOut Low, Tx [columnAddress], DcOut High, Tx [0, x0, 0, x1],
                                  DcOut Low, Tx [rowAddress], DcOut High, Tx [0, y0, 0, y1],
                                  DcOut Low, Tx [memoryWrite]]))
     \<and> [columnAddress, 0, x0, 0, x1] \<noteq> [0, x0, 0, x1]
     \<and> [rowAddress, 0, y0, 0, y1] \<noteq> [0, y0, 0, y1]"
proof -
  have c15: "initCommands d ! 15 =
       \<lparr>Command = columnAddress,
        Data = Some [columnAddress, 0, OffsetX (Model d), 0, OffsetXEnd (Model d)], Delay = 0\<rparr>"
    by (simp add: initCommands_def)
  have c16: "initCommands d ! 16 =
       \<lparr>Command = rowAddress,
        Data = Some [rowAddress, 0, OffsetY (Model d), 0, OffsetYEnd (Model d)], Delay = 0\<rparr>"
    by (simp add: initCommands_def)
  have s15: "send no_errors d (initCommands d ! 15) tr =
         Some (Returns None (tr @ [DcOut Low, Tx [columnAddress], DcOut High,
            Tx [columnAddress, 0, OffsetX (Model d), 0, OffsetXEnd (Model d)]]))"
    unfolding c15 using m by (simp add: send_no_errors_data)
  have s16: "send no_errors d (initCommands d ! 16) tr =
         Some (Returns None (tr @ [DcOut Low, Tx [rowAddress], DcOut High,
            Tx [rowAddress, 0, OffsetY (Model d), 0, OffsetYEnd (Model d)]]))"
    unfolding c16 using m by (simp add: send_no_errors_data)
  have hi: "drop_bit 8 (b :: byte) = 0" for b
    by (rule bit_word_eqI) (auto simp add: bit_simps dest: bit_imp_le_length)
  have win: "setWindowAddress no_errors d x0 x1 y0 y1 tr =
         Some (Returns None (tr @ [DcOut Low, Tx [columnAddress], DcOut High, Tx [0, x0, 0, x1],
                                  DcOut Low, Tx [rowAddress], DcOut High, Tx [0, y0, 0, y1],
                                  DcOut Low, Tx [memoryWrite]]))"
    using m
    by (simp add: setWindowAddress_def columnCommand_def rowCommand_def hi
          send_no_errors_data sendCommand_cases no_errors_def)
  show ?thesis using c15 c16 s15 s16 win by simp
qed

theorem window_payloads_differ_witness:
  "send no_errors (newDev None ModelStandard) (initCommands (newDev None ModelStandard) ! 15) [] =
     Some (Returns None [DcOut Low, Tx [0x2A], DcOut High, Tx [0x2A, 0, 0, 0, 161]])
   \<and> setWindowAddress no_errors (newDev None ModelStandard) 0 161 0 131 [] =
     Some (Returns None [DcOut Low, Tx [0x2A], DcOut High, Tx [0, 0, 0, 161],
                         DcOut Low, Tx [0x2B], DcOut High, Tx [0, 0, 0, 131],
                         DcOut Low, Tx [0x2C]])"
proof -
  let ?d = "newDev None ModelStandard"
  have "5 \<le> sint (maxTxSize ?d)" by (simp add: standard_dev_size)
  note w = window_payloads_differ[OF this, of "[]" 0 161 0 131]
  from w have s: "send no_errors ?d (initCommands ?d ! 15) [] =
         Some (Returns None ([] @ [DcOut Low, Tx [columnAddress], DcOut High,
            Tx [columnAddress, 0, OffsetX (Model ?d), 0, OffsetXEnd (Model ?d)]]))"
    by (elim conjE)
  from w have win: "setWindowAddress no_errors ?d 0 161 0 131 [] =
         Some (Returns None ([] @ [DcOut Low, Tx [columnAddress], DcOut High, Tx [0, 0, 0, 161],
                                  DcOut Low, Tx [rowAddress], DcOut High, Tx [0, 0, 0, 131],
                                  DcOut Low, Tx [memoryWrite]]))"
    by (elim conjE)
  show ?thesis using s win
    by (simp add: opcode_defs newDev_def negotiate_def width_def)
qed



end
